theory Spec2Isabelle
  imports Main "HOL-Library.Sublist"
begin

section \<open>Red Hat package feed: data model\<close>

text \<open>
  The source file is \<^verbatim>\<open>providers/redhat/package_feed.go\<close>. It uses three packages
  whose code is not at hand: \<^verbatim>\<open>schema\<close> (the advisory record), \<^verbatim>\<open>rpm\<close> (the
  package-specifier parser and the checker interface) and \<^verbatim>\<open>wfn\<close> (the platform parser).
  Their data shapes are taken from the field accesses of the source and from the spec.
  Their functions (\<^verbatim>\<open>rpm.Parse\<close>, \<^verbatim>\<open>wfn.Parse\<close>, \<^verbatim>\<open>feed.Checker\<close>, \<^verbatim>\<open>checker.Check\<close>) are
  arguments of the model: a theorem with a free parser or checker holds for every one.
\<close>

text \<open>
  Modelled from the spec: the advisory record shape
  \<^verbatim>\<open>{name, releaseFixEntries: [{packageSpec}], packageStateEntries: [{baseName}]}\<close>,
  with the Go field names the source reads (\<^verbatim>\<open>cve.Name\<close>, \<^verbatim>\<open>cve.AffectedRelease\<close>,
  \<^verbatim>\<open>ar.Package\<close>, \<^verbatim>\<open>cve.PackageState\<close>, \<^verbatim>\<open>ps.PackageName\<close>). An absent string is the
  empty string, as in Go.
\<close>

record AffectedRelease =
  Package :: string

record PackageState =
  PackageName :: string

record CVE =
  Name :: string
  AffectedRelease :: "AffectedRelease list"
  PackageState :: "PackageState list"

text \<open>
  Modelled from the spec: the package identifier \<^verbatim>\<open>{name, version, release}\<close> returned by
  \<^verbatim>\<open>rpm.Parse\<close>. The source reads only its \<^verbatim>\<open>Name\<close>.
\<close>

record rpm_Package =
  Name :: string
  Version :: string
  Release :: string

text \<open>
  The buckets of a \<^verbatim>\<open>PackageFeed\<close> hold \<^verbatim>\<open>*schema.CVE\<close>: references to advisory records,
  not copies. A reference is an address, and a store gives the record at each address.
  The source never writes to a record, so the store is only read.

  Modelled from the spec: \<^verbatim>\<open>Feed\<close>, whose declaration is not at hand, is the spec's
  advisory collection, an ordered sequence; its elements are the references that
  \<^verbatim>\<open>range feed\<close> yields, in that order. Every element refers to a record, as the
  spec's collections hold records: the store is total and there is no nil reference.
\<close>

type_synonym ref = nat

type_synonym store = "ref \<Rightarrow> CVE"

type_synonym Feed = "ref list"

text \<open>\<^verbatim>\<open>type PackageFeed map[string][]*schema.CVE\<close>\<close>

type_synonym PackageFeed = "string \<rightharpoonup> ref list"

text \<open>
  Reading a Go map at a key it does not hold gives the zero value of the element type,
  here the nil slice, which has length 0 and appends like the empty slice.
\<close>

definition bucket :: "PackageFeed \<Rightarrow> string \<Rightarrow> ref list" where
  "bucket pkgFeed k = (case pkgFeed k of None \<Rightarrow> [] | Some cves \<Rightarrow> cves)"

subsection \<open>External collaborators and their observable calls\<close>

text \<open>
  \<^verbatim>\<open>rpm.Parse\<close> and \<^verbatim>\<open>wfn.Parse\<close> return a value or an error; the error is kept as its
  message. \<^verbatim>\<open>feed.Checker()\<close> returns an \<^verbatim>\<open>rpm.Checker\<close> or an error; the checker's only
  method is \<^verbatim>\<open>Check(pkg, distro, cveName) bool\<close>.
\<close>

type_synonym rpm_Parse = "string \<Rightarrow> string + rpm_Package"

type_synonym 'd wfn_Parse = "string \<Rightarrow> string + 'd"

type_synonym 'd Checker = "rpm_Package \<Rightarrow> 'd \<Rightarrow> string \<Rightarrow> bool"

type_synonym 'd feed_Checker = "store \<Rightarrow> Feed \<Rightarrow> string + 'd Checker"

text \<open>
  Every call of one of these functions, and the diagnostic written with \<^verbatim>\<open>log.Printf\<close>,
  is recorded in a trace that the functions pass along, in the order in which the source
  makes the calls. An event holds the arguments of the call.
\<close>

datatype 'd event =
    WfnParse string
  | RpmParse string
  | LogPrintf string
  | FeedChecker
  | CheckerCheck rpm_Package 'd string

text \<open>
  The three error returns of \<^verbatim>\<open>ListFixedCVEs\<close> (lines 92, 96 and 102). The first two are
  the spec's ParseError and hold the offending input and the parser's message; the third
  is the spec's ConstructionError and holds the message of \<^verbatim>\<open>feed.Checker\<close>.
\<close>

datatype error =
    CantParseDistroCpe string string
  | CantParsePackageName string string
  | ListWrapf string

section \<open>The code\<close>

subsection \<open>addPackage\<close>

text \<open>
  \<^verbatim>\<open>for _, p := range pkgs { if p == pkg { return pkgs } }; return append(pkgs, pkg)\<close>.
  The first argument of the loop is the whole slice, the second what is left to scan.
\<close>

fun addPackage_range :: "string list \<Rightarrow> string list \<Rightarrow> string \<Rightarrow> string list" where
  "addPackage_range pkgs [] pkg = pkgs @ [pkg]"
| "addPackage_range pkgs (p # rest) pkg =
     (if p = pkg then pkgs else addPackage_range pkgs rest pkg)"

definition addPackage :: "string list \<Rightarrow> string \<Rightarrow> string list" where
  "addPackage pkgs pkg = addPackage_range pkgs pkgs pkg"

subsection \<open>PackageFeed\<close>

text \<open>
  Loop 1 (lines 52 to 63), over \<^verbatim>\<open>cve.AffectedRelease\<close>. The state is the candidate list
  \<^verbatim>\<open>pkgs\<close> and the trace.
\<close>

fun range_AffectedRelease ::
  "rpm_Parse \<Rightarrow> AffectedRelease list \<Rightarrow> string list \<times> 'd event list
     \<Rightarrow> string list \<times> 'd event list" where
  "range_AffectedRelease parse [] (pkgs, tr) = (pkgs, tr)"
| "range_AffectedRelease parse (ar # ars) (pkgs, tr) =
     (if Package ar = [] then range_AffectedRelease parse ars (pkgs, tr)
      else
        (case parse (Package ar) of
           Inl err \<Rightarrow>
             range_AffectedRelease parse ars
               (pkgs, tr @ [RpmParse (Package ar), LogPrintf (Package ar)])
         | Inr rpmPkg \<Rightarrow>
             range_AffectedRelease parse ars
               (addPackage pkgs (rpm_Package.Name rpmPkg), tr @ [RpmParse (Package ar)])))"

text \<open>Loop 2 (lines 66 to 72), over \<^verbatim>\<open>cve.PackageState\<close>.\<close>

fun range_PackageState :: "PackageState list \<Rightarrow> string list \<Rightarrow> string list" where
  "range_PackageState [] pkgs = pkgs"
| "range_PackageState (ps # pss) pkgs =
     (if PackageName ps = [] then range_PackageState pss pkgs
      else range_PackageState pss (addPackage pkgs (PackageName ps)))"

text \<open>Loop 3 (lines 74 to 77): \<^verbatim>\<open>pkgFeed[pkg] = append(pkgFeed[pkg], cve)\<close>.\<close>

fun range_pkgs :: "ref \<Rightarrow> string list \<Rightarrow> PackageFeed \<Rightarrow> PackageFeed" where
  "range_pkgs cve [] pkgFeed = pkgFeed"
| "range_pkgs cve (pkg # pkgs) pkgFeed =
     range_pkgs cve pkgs (pkgFeed(pkg \<mapsto> bucket pkgFeed pkg @ [cve]))"

text \<open>The outer loop (lines 48 to 78); \<^verbatim>\<open>pkgs := []string{}\<close> is set anew in every round.\<close>

fun range_feed ::
  "rpm_Parse \<Rightarrow> store \<Rightarrow> Feed \<Rightarrow> PackageFeed \<times> 'd event list
     \<Rightarrow> PackageFeed \<times> 'd event list" where
  "range_feed parse h [] (pkgFeed, tr) = (pkgFeed, tr)"
| "range_feed parse h (cve # rest) (pkgFeed, tr) =
     (case range_AffectedRelease parse (AffectedRelease (h cve)) ([], tr) of
        (pkgs1, tr1) \<Rightarrow>
          (let pkgs2 = range_PackageState (PackageState (h cve)) pkgs1
           in range_feed parse h rest (range_pkgs cve pkgs2 pkgFeed, tr1)))"

definition PackageFeed ::
  "rpm_Parse \<Rightarrow> store \<Rightarrow> Feed \<Rightarrow> 'd event list \<Rightarrow> PackageFeed \<times> 'd event list" where
  "PackageFeed parse h feed tr = range_feed parse h feed (Map.empty, tr)"

subsection \<open>ListFixedCVEs\<close>

text \<open>The loop of lines 106 to 110, over the bucket \<^verbatim>\<open>pkgFeed[p.Name]\<close>.\<close>

fun range_bucket ::
  "'d Checker \<Rightarrow> rpm_Package \<Rightarrow> 'd \<Rightarrow> store \<Rightarrow> ref list \<Rightarrow> string list \<times> 'd event list
     \<Rightarrow> string list \<times> 'd event list" where
  "range_bucket checker p d h [] (cves, tr) = (cves, tr)"
| "range_bucket checker p d h (cve # rest) (cves, tr) =
     (if checker p d (CVE.Name (h cve))
      then range_bucket checker p d h rest
             (cves @ [CVE.Name (h cve)], tr @ [CheckerCheck p d (CVE.Name (h cve))])
      else range_bucket checker p d h rest
             (cves, tr @ [CheckerCheck p d (CVE.Name (h cve))]))"

definition ListFixedCVEs ::
  "'d wfn_Parse \<Rightarrow> rpm_Parse \<Rightarrow> 'd feed_Checker \<Rightarrow> store \<Rightarrow> Feed \<Rightarrow> string \<Rightarrow> string
     \<Rightarrow> (error + string list) \<times> 'd event list" where
  "ListFixedCVEs wfnParse rpmParse feedChecker h feed distro pkg =
     (case wfnParse distro of
        Inl err \<Rightarrow> (Inl (CantParseDistroCpe distro err), [WfnParse distro])
      | Inr d \<Rightarrow>
          (case rpmParse pkg of
             Inl err \<Rightarrow>
               (Inl (CantParsePackageName pkg err), [WfnParse distro, RpmParse pkg])
           | Inr p \<Rightarrow>
               (case PackageFeed rpmParse h feed [WfnParse distro, RpmParse pkg] of
                  (pkgFeed, tr1) \<Rightarrow>
                    (case feedChecker h feed of
                       Inl err \<Rightarrow> (Inl (ListWrapf err), tr1 @ [FeedChecker])
                     | Inr checker \<Rightarrow>
                         (case range_bucket checker p d h
                                 (bucket pkgFeed (rpm_Package.Name p))
                                 ([], tr1 @ [FeedChecker]) of
                            (cves, tr2) \<Rightarrow> (Inr cves, tr2))))))"

section \<open>Derived notions\<close>

text \<open>
  The candidate list \<^verbatim>\<open>pkgs\<close> that the source holds at line 74 for one advisory: loop 1,
  then loop 2, started from the empty list of line 49.
\<close>

definition candidates :: "rpm_Parse \<Rightarrow> CVE \<Rightarrow> string list" where
  "candidates parse cve =
     range_PackageState (PackageState cve)
       (fst (range_AffectedRelease parse (AffectedRelease cve) ([], [] :: unit event list)))"

text \<open>
  The index that the outer loop leaves, written as a fold over the feed that forgets the
  trace. It is equal to the first component of \<open>range_feed\<close> (lemma \<open>fst_range_feed\<close>)
  and is only a means to reason about it.
\<close>

definition build_from :: "rpm_Parse \<Rightarrow> store \<Rightarrow> Feed \<Rightarrow> PackageFeed \<Rightarrow> PackageFeed" where
  "build_from parse h feed m =
     foldl (\<lambda>m cve. range_pkgs cve (candidates parse (h cve)) m) m feed"

section \<open>Concrete inputs\<close>

text \<open>
  The scenarios of the spec, as inputs on which the theorems below are evaluated. The
  parsers are tables: they accept exactly the strings listed.
\<close>

definition scenario_parse :: rpm_Parse where
  "scenario_parse s =
     (if s = ''bash-4.4-20.el8''
      then Inr \<lparr>rpm_Package.Name = ''bash'', Version = ''4.4'', Release = ''20.el8''\<rparr>
      else if s = ''bash-4.4-23.el8''
      then Inr \<lparr>rpm_Package.Name = ''bash'', Version = ''4.4'', Release = ''23.el8''\<rparr>
      else if s = ''zsh-5.5-1.el8''
      then Inr \<lparr>rpm_Package.Name = ''zsh'', Version = ''5.5'', Release = ''1.el8''\<rparr>
      else Inl ''unexpected package name'')"

definition scenario_wfn :: "string wfn_Parse" where
  "scenario_wfn s =
     (if s = ''cpe:/o:redhat:enterprise_linux:8'' then Inr s else Inl ''unexpected cpe'')"

text \<open>
  Four advisories. Advisory 0 is the first scenario of the spec, advisory 1 the last one
  (an empty specifier and the base name bash). Advisory 2 names bash through both
  sources and carries a specifier that \<open>scenario_parse\<close> rejects. Advisory 3 has only
  entries that contribute nothing.
\<close>

definition scenario_store :: store where
  "scenario_store r =
     (if r = 0 then
        \<lparr>CVE.Name = ''CVE-2020-0001'',
         AffectedRelease = [\<lparr>Package = ''bash-4.4-20.el8''\<rparr>],
         PackageState = []\<rparr>
      else if r = 1 then
        \<lparr>CVE.Name = ''CVE-2020-0002'',
         AffectedRelease = [\<lparr>Package = []\<rparr>],
         PackageState = [\<lparr>PackageName = ''bash''\<rparr>]\<rparr>
      else if r = 2 then
        \<lparr>CVE.Name = ''CVE-2020-0003'',
         AffectedRelease = [\<lparr>Package = ''bash-4.4-20.el8''\<rparr>, \<lparr>Package = ''-1-1.noarch''\<rparr>],
         PackageState = [\<lparr>PackageName = []\<rparr>, \<lparr>PackageName = ''bash''\<rparr>]\<rparr>
      else
        \<lparr>CVE.Name = ''CVE-2020-0004'',
         AffectedRelease = [\<lparr>Package = []\<rparr>, \<lparr>Package = ''-1-1.noarch''\<rparr>],
         PackageState = [\<lparr>PackageName = []\<rparr>]\<rparr>)"

text \<open>A checker that reports every advisory but CVE-2020-0002 as not applicable.\<close>

definition scenario_checker :: "string feed_Checker" where
  "scenario_checker h feed = Inr (\<lambda>p d name. name \<noteq> ''CVE-2020-0002'')"

text \<open>
  A parser that accepts a specifier whose name part is empty: splitting
  \<^verbatim>\<open>-1-1.noarch\<close> at its last two hyphens leaves the empty string as the name.
\<close>

definition nameless_parse :: rpm_Parse where
  "nameless_parse s =
     (if s = ''-1-1.noarch''
      then Inr \<lparr>rpm_Package.Name = [], Version = ''1'', Release = ''1.noarch''\<rparr>
      else scenario_parse s)"

lemmas scenario_defs =
  PackageFeed_def addPackage_def bucket_def candidates_def
  scenario_parse_def scenario_wfn_def scenario_store_def scenario_checker_def

section \<open>Facts about the loops\<close>

subsection \<open>addPackage\<close>

lemma addPackage_range_eq:
  "addPackage_range pkgs rest pkg = (if pkg \<in> set rest then pkgs else pkgs @ [pkg])"
  by (induction rest) auto

lemma addPackage_eq:
  "addPackage pkgs pkg = (if pkg \<in> set pkgs then pkgs else pkgs @ [pkg])"
  by (simp add: addPackage_def addPackage_range_eq)

lemma distinct_addPackage: "distinct pkgs \<Longrightarrow> distinct (addPackage pkgs pkg)"
  by (simp add: addPackage_eq)

lemma set_addPackage: "set (addPackage pkgs pkg) = insert pkg (set pkgs)"
  by (auto simp: addPackage_eq)

subsection \<open>The candidate list\<close>

text \<open>The trace has no influence on the candidate list.\<close>

lemma fst_range_AffectedRelease_trace:
  "fst (range_AffectedRelease parse ars (pkgs, tr)) =
   fst (range_AffectedRelease parse ars (pkgs, tr'))"
proof (induction ars arbitrary: pkgs tr tr')
  case Nil
  show ?case by simp
next
  case (Cons ar ars)
  show ?case
  proof (cases "Package ar = []")
    case True
    then show ?thesis using Cons.IH by simp
  next
    case False
    show ?thesis
    proof (cases "parse (Package ar)")
      case (Inl err)
      with False show ?thesis using Cons.IH by simp
    next
      case (Inr rpmPkg)
      with False show ?thesis using Cons.IH by simp
    qed
  qed
qed

lemma fst_range_AffectedRelease_append:
  "fst (range_AffectedRelease parse (xs @ ys) (pkgs, tr))
   = fst (range_AffectedRelease parse ys (fst (range_AffectedRelease parse xs (pkgs, tr)), tr'))"
proof (induction xs arbitrary: pkgs tr)
  case Nil
  show ?case using fst_range_AffectedRelease_trace [of parse ys pkgs tr tr'] by simp
next
  case (Cons x xs)
  show ?case by (simp add: Cons.IH split: sum.splits)
qed

lemma fst_range_AffectedRelease_skip:
  assumes "parse (Package ar) = Inl err"
  shows "fst (range_AffectedRelease parse (ar # ars) (pkgs, tr))
         = fst (range_AffectedRelease parse ars (pkgs, tr))"
  using assms
    fst_range_AffectedRelease_trace
      [of parse ars pkgs "tr @ [RpmParse (Package ar), LogPrintf (Package ar)]" tr]
  by simp

lemma distinct_range_AffectedRelease:
  "distinct pkgs \<Longrightarrow> distinct (fst (range_AffectedRelease parse ars (pkgs, tr)))"
  by (induction ars arbitrary: pkgs tr)
     (auto simp: distinct_addPackage split: sum.splits)

lemma distinct_range_PackageState:
  "distinct pkgs \<Longrightarrow> distinct (range_PackageState pss pkgs)"
  by (induction pss arbitrary: pkgs) (auto simp: distinct_addPackage)

lemma distinct_candidates: "distinct (candidates parse cve)"
  by (simp add: candidates_def distinct_range_AffectedRelease distinct_range_PackageState)

lemma set_range_AffectedRelease:
  "set (fst (range_AffectedRelease parse ars (pkgs, tr))) =
   set pkgs \<union> {rpm_Package.Name rpmPkg | ar rpmPkg.
                 ar \<in> set ars \<and> Package ar \<noteq> [] \<and> parse (Package ar) = Inr rpmPkg}"
proof (induction ars arbitrary: pkgs tr)
  case Nil
  show ?case by simp
next
  case (Cons ar ars)
  show ?case
  proof (cases "Package ar = []")
    case True
    then show ?thesis using Cons.IH by auto
  next
    case False
    show ?thesis
    proof (cases "parse (Package ar)")
      case (Inl err)
      with False show ?thesis using Cons.IH by auto
    next
      case (Inr rpmPkg)
      with False show ?thesis using Cons.IH by (auto simp: set_addPackage)
    qed
  qed
qed

lemma set_range_PackageState:
  "set (range_PackageState pss pkgs) =
   set pkgs \<union> {PackageName ps | ps. ps \<in> set pss \<and> PackageName ps \<noteq> []}"
  by (induction pss arbitrary: pkgs) (auto simp: set_addPackage)

lemma set_candidates:
  "set (candidates parse cve) =
   {rpm_Package.Name rpmPkg | ar rpmPkg.
      ar \<in> set (AffectedRelease cve) \<and> Package ar \<noteq> [] \<and> parse (Package ar) = Inr rpmPkg}
   \<union> {PackageName ps | ps. ps \<in> set (PackageState cve) \<and> PackageName ps \<noteq> []}"
  by (simp add: candidates_def set_range_PackageState set_range_AffectedRelease)

lemma candidates_omit:
  assumes "parse (Package ar) = Inl err"
    and "AffectedRelease cve = as @ ar # bs"
  shows "candidates parse cve = candidates parse (cve\<lparr>AffectedRelease := as @ bs\<rparr>)"
proof -
  let ?e = "[] :: unit event list"
  have "fst (range_AffectedRelease parse (as @ ar # bs) ([], ?e))
        = fst (range_AffectedRelease parse (ar # bs)
                 (fst (range_AffectedRelease parse as ([], ?e)), ?e))"
    by (rule fst_range_AffectedRelease_append)
  also have "\<dots> = fst (range_AffectedRelease parse bs
                 (fst (range_AffectedRelease parse as ([], ?e)), ?e))"
    using assms(1) by (rule fst_range_AffectedRelease_skip [where parse = parse and ar = ar])
  also have "\<dots> = fst (range_AffectedRelease parse (as @ bs) ([], ?e))"
    by (rule fst_range_AffectedRelease_append [symmetric])
  finally show ?thesis
    unfolding candidates_def using assms(2) by simp
qed

subsection \<open>Buckets\<close>

lemma bucket_empty: "bucket Map.empty k = []"
  by (simp add: bucket_def)

lemma bucket_upd:
  "bucket (m(k \<mapsto> v)) k' = (if k' = k then v else bucket m k')"
  by (simp add: bucket_def)

lemma count_list_distinct:
  "distinct xs \<Longrightarrow> count_list xs x = (if x \<in> set xs then 1 else 0)"
  by (induction xs) auto

lemma count_list_filter:
  "count_list (filter P xs) x = (if P x then count_list xs x else 0)"
  by (induction xs) auto

lemma bucket_range_pkgs:
  "bucket (range_pkgs cve pkgs m) k = bucket m k @ replicate (count_list pkgs k) cve"
  by (induction pkgs arbitrary: m) (auto simp: bucket_upd replicate_app_Cons_same)

lemma bucket_range_pkgs_distinct:
  "distinct pkgs \<Longrightarrow>
   bucket (range_pkgs cve pkgs m) k = bucket m k @ (if k \<in> set pkgs then [cve] else [])"
  by (simp add: bucket_range_pkgs count_list_distinct)



subsection \<open>The outer loop\<close>

lemma build_from_Nil: "build_from parse h [] m = m"
  by (simp add: build_from_def)

lemma build_from_Cons:
  "build_from parse h (cve # rest) m
   = build_from parse h rest (range_pkgs cve (candidates parse (h cve)) m)"
  by (simp add: build_from_def)

lemma build_from_append:
  "build_from parse h (xs @ ys) m = build_from parse h ys (build_from parse h xs m)"
  by (simp add: build_from_def)

lemma fst_range_feed:
  "fst (range_feed parse h feed (m, tr)) = build_from parse h feed m"
proof (induction feed arbitrary: m tr)
  case Nil
  show ?case by (simp add: build_from_Nil)
next
  case (Cons cve rest)
  let ?ar = "range_AffectedRelease parse (AffectedRelease (h cve)) ([], tr)"
  have "fst ?ar
        = fst (range_AffectedRelease parse (AffectedRelease (h cve))
                 ([], [] :: unit event list))"
    by (rule fst_range_AffectedRelease_trace)
  then have "range_PackageState (PackageState (h cve)) (fst ?ar) = candidates parse (h cve)"
    by (simp add: candidates_def)
  then show ?case
    using Cons.IH by (simp add: build_from_Cons case_prod_beta)
qed

lemma fst_PackageFeed: "fst (PackageFeed parse h feed tr) = build_from parse h feed Map.empty"
  by (simp add: PackageFeed_def fst_range_feed)

lemma PackageFeed_trace_irrelevant:
  "fst (PackageFeed parse h feed tr) = fst (PackageFeed parse h feed tr')"
  by (simp add: fst_PackageFeed)

lemma bucket_build_from:
  "bucket (build_from parse h feed m) k =
   bucket m k @ filter (\<lambda>cve. k \<in> set (candidates parse (h cve))) feed"
  by (induction feed arbitrary: m)
     (simp_all add: build_from_Nil build_from_Cons bucket_range_pkgs_distinct
        distinct_candidates)

lemma bucket_PackageFeed:
  "bucket (fst (PackageFeed parse h feed tr)) k =
   filter (\<lambda>cve. k \<in> set (candidates parse (h cve))) feed"
  by (simp add: fst_PackageFeed bucket_build_from bucket_empty)


lemma build_from_cong:
  "(\<And>cve. cve \<in> set feed \<Longrightarrow> candidates parse (h cve) = candidates parse' (h' cve)) \<Longrightarrow>
   build_from parse h feed m = build_from parse' h' feed m"
  by (induction feed arbitrary: m) (simp_all add: build_from_Nil build_from_Cons)


subsection \<open>The loop over the bucket\<close>

lemma range_bucket_eq:
  "range_bucket checker p d h bkt (cves, tr) =
   (cves @ map (\<lambda>cve. CVE.Name (h cve)) (filter (\<lambda>cve. checker p d (CVE.Name (h cve))) bkt),
    tr @ map (\<lambda>cve. CheckerCheck p d (CVE.Name (h cve))) bkt)"
  by (induction bkt arbitrary: cves tr) simp_all

section \<open>ListFixedCVEs\<close>

text \<open>
  C1. When the distribution and the package parse and the checker is obtained,
  \<open>ListFixedCVEs\<close> returns no error and exactly the names of the advisories of the
  bucket of the parsed package's base name for which \<open>Check\<close> holds, in bucket order;
  the advisories for which \<open>Check\<close> is false are left out. The trace shows that
  \<open>Check\<close> is called once for every advisory of the bucket, in bucket order, with the
  parsed package, the parsed distribution and the advisory's name.
\<close>

theorem ListFixedCVEs_lists_inapplicable:
  fixes d :: 'd
  assumes "wfnParse distro = Inr d"
    and "rpmParse pkg = Inr p"
    and "feedChecker h feed = Inr checker"
  shows "ListFixedCVEs wfnParse rpmParse feedChecker h feed distro pkg =
     (Inr (map (\<lambda>cve. CVE.Name (h cve))
             (filter (\<lambda>cve. checker p d (CVE.Name (h cve)))
                (bucket (fst (PackageFeed rpmParse h feed
                                [WfnParse distro, RpmParse pkg :: 'd event]))
                   (rpm_Package.Name p)))),
      snd (PackageFeed rpmParse h feed [WfnParse distro, RpmParse pkg])
        @ FeedChecker
        # map (\<lambda>cve. CheckerCheck p d (CVE.Name (h cve)))
            (bucket (fst (PackageFeed rpmParse h feed
                            [WfnParse distro, RpmParse pkg :: 'd event]))
               (rpm_Package.Name p)))"
  unfolding ListFixedCVEs_def using assms
  by (simp add: range_bucket_eq case_prod_beta)

text \<open>
  The first scenario of the spec, with advisory 1 added to the collection: both are in
  the bucket of bash, the checker holds for CVE-2020-0001 only.
\<close>

theorem ListFixedCVEs_lists_inapplicable_witness:
  "scenario_wfn ''cpe:/o:redhat:enterprise_linux:8'' = Inr ''cpe:/o:redhat:enterprise_linux:8''
   \<and> scenario_parse ''bash-4.4-23.el8''
       = Inr \<lparr>rpm_Package.Name = ''bash'', Version = ''4.4'', Release = ''23.el8''\<rparr>
   \<and> scenario_checker scenario_store [0, 1] = Inr (\<lambda>p d name. name \<noteq> ''CVE-2020-0002'')
   \<and> fst (ListFixedCVEs scenario_wfn scenario_parse scenario_checker scenario_store [0, 1]
            ''cpe:/o:redhat:enterprise_linux:8'' ''bash-4.4-23.el8'')
       = Inr [''CVE-2020-0001'']"
proof -
  have w: "scenario_wfn ''cpe:/o:redhat:enterprise_linux:8''
           = Inr ''cpe:/o:redhat:enterprise_linux:8''"
    by (simp add: scenario_wfn_def)
  have p: "scenario_parse ''bash-4.4-23.el8''
           = Inr \<lparr>rpm_Package.Name = ''bash'', Version = ''4.4'', Release = ''23.el8''\<rparr>"
    by (simp add: scenario_parse_def)
  have c: "scenario_checker scenario_store [0, 1] = Inr (\<lambda>p d name. name \<noteq> ''CVE-2020-0002'')"
    by (simp add: scenario_checker_def)
  note e = ListFixedCVEs_lists_inapplicable
             [where wfnParse = scenario_wfn and rpmParse = scenario_parse
                and feedChecker = scenario_checker and h = scenario_store and feed = "[0, 1]"
                and distro = "''cpe:/o:redhat:enterprise_linux:8''"
                and pkg = "''bash-4.4-23.el8''", OF w p c]
  have r: "fst (ListFixedCVEs scenario_wfn scenario_parse scenario_checker scenario_store [0, 1]
                  ''cpe:/o:redhat:enterprise_linux:8'' ''bash-4.4-23.el8'')
           = Inr [''CVE-2020-0001'']"
    unfolding e by (simp add: scenario_defs)
  from w p c r show ?thesis by (intro conjI)
qed

text \<open>
  C2. When the distribution string does not parse, \<open>ListFixedCVEs\<close> returns the parse
  error for the distribution, and the only call it has made is \<open>wfn.Parse\<close>: the
  package is not parsed, the index is not built, the checker is neither obtained nor
  called. When the distribution parses and the package string does not,
  it returns the parse error for the package after the two parser calls and nothing
  else: no index, no checker.
\<close>

theorem ListFixedCVEs_parse_errors:
  "(wfnParse distro = Inl err \<longrightarrow>
      ListFixedCVEs wfnParse rpmParse feedChecker h feed distro pkg =
        (Inl (CantParseDistroCpe distro err), [WfnParse distro]))
   \<and> (wfnParse distro = Inr d \<longrightarrow> rpmParse pkg = Inl err' \<longrightarrow>
      ListFixedCVEs wfnParse rpmParse feedChecker h feed distro pkg =
        (Inl (CantParsePackageName pkg err'), [WfnParse distro, RpmParse pkg]))"
  by (simp add: ListFixedCVEs_def)

theorem ListFixedCVEs_parse_errors_witness:
  "scenario_wfn ''rhel8'' = Inl ''unexpected cpe''
   \<and> ListFixedCVEs scenario_wfn scenario_parse scenario_checker scenario_store [0, 1, 2, 3]
         ''rhel8'' ''bash-4.4-23.el8''
       = (Inl (CantParseDistroCpe ''rhel8'' ''unexpected cpe''), [WfnParse ''rhel8''])
   \<and> scenario_wfn ''cpe:/o:redhat:enterprise_linux:8'' = Inr ''cpe:/o:redhat:enterprise_linux:8''
   \<and> scenario_parse ''bash'' = Inl ''unexpected package name''
   \<and> ListFixedCVEs scenario_wfn scenario_parse scenario_checker scenario_store [0, 1, 2, 3]
         ''cpe:/o:redhat:enterprise_linux:8'' ''bash''
       = (Inl (CantParsePackageName ''bash'' ''unexpected package name''),
          [WfnParse ''cpe:/o:redhat:enterprise_linux:8'', RpmParse ''bash''])"
proof -
  have w1: "scenario_wfn ''rhel8'' = Inl ''unexpected cpe''"
    by (simp add: scenario_wfn_def)
  have w2: "scenario_wfn ''cpe:/o:redhat:enterprise_linux:8''
            = Inr ''cpe:/o:redhat:enterprise_linux:8''"
    by (simp add: scenario_wfn_def)
  have p2: "scenario_parse ''bash'' = Inl ''unexpected package name''"
    by (simp add: scenario_parse_def)
  note e1 = ListFixedCVEs_parse_errors
              [where wfnParse = scenario_wfn and distro = "''rhel8''"
                 and err = "''unexpected cpe''", THEN conjunct1, rule_format, OF w1]
  note e2 = ListFixedCVEs_parse_errors
              [where wfnParse = scenario_wfn and distro = "''cpe:/o:redhat:enterprise_linux:8''"
                 and rpmParse = scenario_parse and pkg = "''bash''"
                 and err' = "''unexpected package name''",
               THEN conjunct2, rule_format, OF w2 p2]
  from w1 e1 w2 p2 e2 show ?thesis by (intro conjI)
qed

text \<open>
  C3. When both parses succeed and the checker is obtained, and the index has no bucket
  for the parsed package's base name, \<open>ListFixedCVEs\<close> returns the empty sequence and
  no error; the checker is obtained and never called.
\<close>

theorem ListFixedCVEs_no_bucket:
  fixes d :: 'd and tr :: "'d event list"
  assumes "wfnParse distro = Inr d"
    and "rpmParse pkg = Inr p"
    and "feedChecker h feed = Inr checker"
    and "fst (PackageFeed rpmParse h feed tr) (rpm_Package.Name p) = None"
  shows "ListFixedCVEs wfnParse rpmParse feedChecker h feed distro pkg
         = (Inr [], snd (PackageFeed rpmParse h feed [WfnParse distro, RpmParse pkg])
                      @ [FeedChecker])"
proof -
  have "fst (PackageFeed rpmParse h feed [WfnParse distro, RpmParse pkg :: 'd event])
        = fst (PackageFeed rpmParse h feed tr)"
    by (rule PackageFeed_trace_irrelevant)
  then have "bucket (fst (PackageFeed rpmParse h feed [WfnParse distro, RpmParse pkg :: 'd event]))
               (rpm_Package.Name p) = []"
    using assms(4) by (simp add: bucket_def)
  then show ?thesis
    unfolding ListFixedCVEs_def using assms(1-3) by (simp add: case_prod_beta)
qed

theorem ListFixedCVEs_no_bucket_witness:
  "scenario_wfn ''cpe:/o:redhat:enterprise_linux:8'' = Inr ''cpe:/o:redhat:enterprise_linux:8''
   \<and> scenario_parse ''zsh-5.5-1.el8''
       = Inr \<lparr>rpm_Package.Name = ''zsh'', Version = ''5.5'', Release = ''1.el8''\<rparr>
   \<and> scenario_checker scenario_store [0, 1, 2, 3]
       = Inr (\<lambda>p d name. name \<noteq> ''CVE-2020-0002'')
   \<and> fst (PackageFeed scenario_parse scenario_store [0, 1, 2, 3] ([] :: string event list))
         ''zsh'' = None
   \<and> fst (ListFixedCVEs scenario_wfn scenario_parse scenario_checker scenario_store
            [0, 1, 2, 3] ''cpe:/o:redhat:enterprise_linux:8'' ''zsh-5.5-1.el8'')
       = Inr []"
proof -
  have w: "scenario_wfn ''cpe:/o:redhat:enterprise_linux:8''
           = Inr ''cpe:/o:redhat:enterprise_linux:8''"
    by (simp add: scenario_wfn_def)
  have p: "scenario_parse ''zsh-5.5-1.el8''
           = Inr \<lparr>rpm_Package.Name = ''zsh'', Version = ''5.5'', Release = ''1.el8''\<rparr>"
    by (simp add: scenario_parse_def)
  have c: "scenario_checker scenario_store [0, 1, 2, 3]
           = Inr (\<lambda>p d name. name \<noteq> ''CVE-2020-0002'')"
    by (simp add: scenario_checker_def)
  have n: "fst (PackageFeed scenario_parse scenario_store [0, 1, 2, 3]
                  ([] :: string event list)) ''zsh'' = None"
    by (simp add: scenario_defs)
  have n': "fst (PackageFeed scenario_parse scenario_store [0, 1, 2, 3]
                   ([] :: string event list))
              (rpm_Package.Name
                 \<lparr>rpm_Package.Name = ''zsh'', Version = ''5.5'', Release = ''1.el8''\<rparr>) = None"
    using n by simp
  note e = ListFixedCVEs_no_bucket
             [where wfnParse = scenario_wfn and rpmParse = scenario_parse
                and feedChecker = scenario_checker and h = scenario_store
                and feed = "[0, 1, 2, 3]"
                and distro = "''cpe:/o:redhat:enterprise_linux:8''"
                and pkg = "''zsh-5.5-1.el8''", OF w p c n']
  have r: "fst (ListFixedCVEs scenario_wfn scenario_parse scenario_checker scenario_store
                  [0, 1, 2, 3] ''cpe:/o:redhat:enterprise_linux:8'' ''zsh-5.5-1.el8'')
           = Inr []"
    unfolding e by simp
  from w p c n r show ?thesis by (intro conjI)
qed

section \<open>PackageFeed\<close>

text \<open>
  C4, as amended. Every element of the collection is put into the bucket of a given
  package name at most once: the candidate list of an advisory has no repeated name, so
  the number of times an advisory stands in a bucket is at most the number of times it
  stands in the collection, and a collection without repetition gives buckets without
  repetition. In particular, when a release-fix entry and a package-state entry of the
  advisory yield the same base name, the advisory stands in that bucket exactly as often
  as in the collection: exactly once for an advisory that the collection lists once.
\<close>

theorem PackageFeed_at_most_once:
  "distinct (candidates parse (h cve))
   \<and> count_list (bucket (fst (PackageFeed parse h feed tr)) k) cve \<le> count_list feed cve
   \<and> (distinct feed \<longrightarrow> distinct (bucket (fst (PackageFeed parse h feed tr)) k))
   \<and> (ar \<in> set (AffectedRelease (h cve)) \<and> Package ar \<noteq> []
        \<and> parse (Package ar) = Inr rpmPkg
        \<and> ps \<in> set (PackageState (h cve)) \<and> PackageName ps = rpm_Package.Name rpmPkg
      \<longrightarrow> count_list (bucket (fst (PackageFeed parse h feed tr)) (PackageName ps)) cve
            = count_list feed cve)"
proof -
  have "ar \<in> set (AffectedRelease (h cve)) \<and> Package ar \<noteq> []
        \<and> parse (Package ar) = Inr rpmPkg \<and> PackageName ps = rpm_Package.Name rpmPkg
        \<Longrightarrow> PackageName ps \<in> set (candidates parse (h cve))"
    unfolding set_candidates by blast
  then show ?thesis
    by (auto simp: distinct_candidates bucket_PackageFeed count_list_filter)
qed

text \<open>Advisory 2 yields bash from its first release-fix entry and from its second
  package-state entry; it stands once in the bucket of bash.\<close>

theorem PackageFeed_at_most_once_witness:
  "distinct [0, 1, 2, 3 :: nat]
   \<and> distinct (bucket (fst (PackageFeed scenario_parse scenario_store [0, 1, 2, 3]
                              ([] :: string event list))) ''bash'')
   \<and> \<lparr>Package = ''bash-4.4-20.el8''\<rparr> \<in> set (AffectedRelease (scenario_store 2))
   \<and> scenario_parse ''bash-4.4-20.el8''
       = Inr \<lparr>rpm_Package.Name = ''bash'', Version = ''4.4'', Release = ''20.el8''\<rparr>
   \<and> \<lparr>PackageName = ''bash''\<rparr> \<in> set (PackageState (scenario_store 2))
   \<and> count_list (bucket (fst (PackageFeed scenario_parse scenario_store [0, 1, 2, 3]
                                ([] :: string event list))) ''bash'') 2 = 1"
proof -
  let ?ar = "\<lparr>Package = ''bash-4.4-20.el8''\<rparr>"
  let ?ps = "\<lparr>PackageName = ''bash''\<rparr>"
  let ?p = "\<lparr>rpm_Package.Name = ''bash'', Version = ''4.4'', Release = ''20.el8''\<rparr>"
  note t = PackageFeed_at_most_once
             [where parse = scenario_parse and h = scenario_store and feed = "[0, 1, 2, 3]"
                and tr = "[] :: string event list" and k = "''bash''" and cve = 2
                and ar = ?ar and ps = ?ps and rpmPkg = ?p]
  have d: "distinct [0, 1, 2, 3 :: nat]" by simp
  have a: "?ar \<in> set (AffectedRelease (scenario_store 2))"
    by (simp add: scenario_store_def)
  have p: "scenario_parse ''bash-4.4-20.el8'' = Inr ?p"
    by (simp add: scenario_parse_def)
  have s: "?ps \<in> set (PackageState (scenario_store 2))"
    by (simp add: scenario_store_def)
  have "distinct (bucket (fst (PackageFeed scenario_parse scenario_store [0, 1, 2, 3]
                                 ([] :: string event list))) ''bash'')"
    using t d by blast
  moreover have "count_list (bucket (fst (PackageFeed scenario_parse scenario_store
                    [0, 1, 2, 3] ([] :: string event list))) (PackageName ?ps)) 2
                 = count_list [0, 1, 2, 3 :: nat] 2"
    using t a p s by simp
  then have "count_list (bucket (fst (PackageFeed scenario_parse scenario_store [0, 1, 2, 3]
                                        ([] :: string event list))) ''bash'') 2 = 1"
    by simp
  ultimately show ?thesis using d a p s by (intro conjI)
qed

text \<open>
  C4, as stated, fails for a collection that lists an advisory twice: advisory 2 yields
  bash from both sources, and the collection 2, 2 puts it twice into the bucket of bash
  in one build.
\<close>

theorem PackageFeed_at_most_once_counterexample:
  "bucket (fst (PackageFeed scenario_parse scenario_store [2, 2] ([] :: string event list)))
     ''bash'' = [2, 2]
   \<and> count_list (bucket (fst (PackageFeed scenario_parse scenario_store [2, 2]
                                ([] :: string event list))) ''bash'') 2 = 2"
  by (simp add: scenario_defs)

text \<open>
  C5. \<open>PackageFeed\<close> has no error result. A release-fix entry whose specifier does not
  parse is skipped: the index built from a collection equals the index built from the
  same collection with that entry taken out of its advisory record. When the specifier
  is not empty, the round of the loop only adds the parser call and the diagnostic to
  the trace and leaves the candidate list as it was.
\<close>

theorem PackageFeed_skips_unparsable:
  assumes "parse (Package ar) = Inl err"
    and "AffectedRelease (h r) = as @ ar # bs"
  shows "fst (PackageFeed parse h feed tr)
         = fst (PackageFeed parse (h(r := (h r)\<lparr>AffectedRelease := as @ bs\<rparr>)) feed tr)
     \<and> (Package ar \<noteq> [] \<longrightarrow>
          range_AffectedRelease parse (ar # ars) (pkgs, tr)
          = range_AffectedRelease parse ars
              (pkgs, tr @ [RpmParse (Package ar), LogPrintf (Package ar)]))"
proof -
  have "candidates parse (h cve)
      = candidates parse ((h(r := (h r)\<lparr>AffectedRelease := as @ bs\<rparr>)) cve)" for cve
    using candidates_omit [where parse = parse and ar = ar and cve = "h r" and as = as and bs = bs]
      assms
    by simp
  then have "build_from parse h feed Map.empty
      = build_from parse (h(r := (h r)\<lparr>AffectedRelease := as @ bs\<rparr>)) feed Map.empty"
    by (intro build_from_cong)
  then show ?thesis using assms(1) by (simp add: fst_PackageFeed)
qed

text \<open>Advisory 2 with and without its second release-fix entry, which
  \<open>scenario_parse\<close> rejects: the bucket of bash is the same.\<close>

theorem PackageFeed_skips_unparsable_witness:
  "scenario_parse (Package \<lparr>Package = ''-1-1.noarch''\<rparr>) = Inl ''unexpected package name''
   \<and> AffectedRelease (scenario_store 2)
       = [\<lparr>Package = ''bash-4.4-20.el8''\<rparr>] @ \<lparr>Package = ''-1-1.noarch''\<rparr> # []
   \<and> fst (PackageFeed scenario_parse
            (scenario_store
               (2 := (scenario_store 2)
                       \<lparr>AffectedRelease := [\<lparr>Package = ''bash-4.4-20.el8''\<rparr>] @ []\<rparr>))
            [0, 1, 2, 3] ([] :: string event list)) ''bash''
       = Some [0, 1, 2]
   \<and> range_AffectedRelease scenario_parse [\<lparr>Package = ''-1-1.noarch''\<rparr>]
         ([''bash''], [] :: string event list)
       = ([''bash''], [RpmParse ''-1-1.noarch'', LogPrintf ''-1-1.noarch''])"
proof -
  let ?ar = "\<lparr>Package = ''-1-1.noarch''\<rparr>"
  have f: "scenario_parse (Package ?ar) = Inl ''unexpected package name''"
    by (simp add: scenario_parse_def)
  have a: "AffectedRelease (scenario_store 2) = [\<lparr>Package = ''bash-4.4-20.el8''\<rparr>] @ ?ar # []"
    by (simp add: scenario_store_def)
  note t = PackageFeed_skips_unparsable
             [where parse = scenario_parse and ar = ?ar and h = scenario_store and r = 2
                and feed = "[0, 1, 2, 3]" and tr = "[] :: string event list"
                and ars = "[]" and pkgs = "[''bash'']", OF f a]
  have l: "fst (PackageFeed scenario_parse scenario_store [0, 1, 2, 3]
                  ([] :: string event list)) ''bash'' = Some [0, 1, 2]"
    by (simp add: scenario_defs)
  have i: "fst (PackageFeed scenario_parse
            (scenario_store
               (2 := (scenario_store 2)
                       \<lparr>AffectedRelease := [\<lparr>Package = ''bash-4.4-20.el8''\<rparr>] @ []\<rparr>))
            [0, 1, 2, 3] ([] :: string event list)) ''bash'' = Some [0, 1, 2]"
    using t [THEN conjunct1] l by simp
  have g: "range_AffectedRelease scenario_parse [?ar] ([''bash''], [] :: string event list)
           = ([''bash''], [RpmParse ''-1-1.noarch'', LogPrintf ''-1-1.noarch''])"
    using t [THEN conjunct2] by simp
  from f a i g show ?thesis by (intro conjI)
qed

text \<open>
  C6, as amended. An advisory whose entries yield no non-empty candidate name stands in
  no bucket of a non-empty name, and in no bucket at all provided that the parser
  returns no empty base name for the release-fix specifiers of the advisory; the
  source tests the specifier for emptiness, not the base name that the parser returns.
  An advisory whose candidate list is empty stands in no bucket, and the candidate list
  is empty exactly when every release-fix entry has an empty specifier or one that does
  not parse, and every package-state entry has an empty base name. A release-fix entry
  with an empty specifier and a package-state entry with an empty base name leave the
  candidate list and the trace as they were.
\<close>

theorem PackageFeed_no_candidates:
  "((\<forall>k \<in> set (candidates parse (h cve)). k = []) \<longrightarrow>
      (\<forall>k. k \<noteq> [] \<longrightarrow> cve \<notin> set (bucket (fst (PackageFeed parse h feed tr)) k)))
   \<and> ((\<forall>ar \<in> set (AffectedRelease (h cve)). \<forall>rpmPkg.
          parse (Package ar) = Inr rpmPkg \<longrightarrow> rpm_Package.Name rpmPkg \<noteq> []) \<longrightarrow>
        (\<forall>k \<in> set (candidates parse (h cve)). k = []) \<longrightarrow>
        (\<forall>k. cve \<notin> set (bucket (fst (PackageFeed parse h feed tr)) k)))
   \<and> (candidates parse (h cve) = [] \<longrightarrow>
        (\<forall>k. cve \<notin> set (bucket (fst (PackageFeed parse h feed tr)) k)))
   \<and> (candidates parse c = [] \<longleftrightarrow>
        (\<forall>ar \<in> set (AffectedRelease c).
            Package ar = [] \<or> (\<exists>err. parse (Package ar) = Inl err))
        \<and> (\<forall>ps \<in> set (PackageState c). PackageName ps = []))
   \<and> (Package ar = [] \<longrightarrow>
        range_AffectedRelease parse (ar # ars) (pkgs, tr)
        = range_AffectedRelease parse ars (pkgs, tr))
   \<and> (PackageName ps = [] \<longrightarrow>
        range_PackageState (ps # pss) pkgs = range_PackageState pss pkgs)"
proof -
  have iff: "candidates parse c = [] \<longleftrightarrow>
        (\<forall>ar \<in> set (AffectedRelease c).
            Package ar = [] \<or> (\<exists>err. parse (Package ar) = Inl err))
        \<and> (\<forall>ps \<in> set (PackageState c). PackageName ps = [])"
  proof -
    have "candidates parse c = [] \<longleftrightarrow> set (candidates parse c) = {}"
      by simp
    also have "\<dots> \<longleftrightarrow>
        (\<forall>ar \<in> set (AffectedRelease c).
            Package ar = [] \<or> (\<exists>err. parse (Package ar) = Inl err))
        \<and> (\<forall>ps \<in> set (PackageState c). PackageName ps = [])"
      unfolding set_candidates
      by (auto simp: all_conj_distrib) (metis sum.exhaust_sel)+
    finally show ?thesis .
  qed
  have nonempty_key: "cve \<notin> set (bucket (fst (PackageFeed parse h feed tr)) k)"
    if e: "\<forall>k \<in> set (candidates parse (h cve)). k = []" and k: "k \<noteq> []" for k
  proof -
    from e k have "k \<notin> set (candidates parse (h cve))" by blast
    then show ?thesis by (simp add: bucket_PackageFeed)
  qed
  have proviso: "candidates parse (h cve) = []"
    if p: "\<forall>ar \<in> set (AffectedRelease (h cve)). \<forall>rpmPkg.
            parse (Package ar) = Inr rpmPkg \<longrightarrow> rpm_Package.Name rpmPkg \<noteq> []"
      and e: "\<forall>k \<in> set (candidates parse (h cve)). k = []"
  proof -
    have ne: "k \<noteq> []" if k: "k \<in> set (candidates parse (h cve))" for k
    proof -
      from k have "k \<in> {rpm_Package.Name rpmPkg | ar rpmPkg.
                        ar \<in> set (AffectedRelease (h cve)) \<and> Package ar \<noteq> []
                        \<and> parse (Package ar) = Inr rpmPkg}
                     \<union> {PackageName ps | ps.
                          ps \<in> set (PackageState (h cve)) \<and> PackageName ps \<noteq> []}"
        unfolding set_candidates .
      then show ?thesis
      proof (elim UnE CollectE exE conjE)
        fix ar rpmPkg
        assume kn: "k = rpm_Package.Name rpmPkg"
          and ar: "ar \<in> set (AffectedRelease (h cve))"
          and ok: "parse (Package ar) = Inr rpmPkg"
        from p ar have "\<forall>rpmPkg. parse (Package ar) = Inr rpmPkg
                          \<longrightarrow> rpm_Package.Name rpmPkg \<noteq> []"
          by (rule bspec)
        then have "parse (Package ar) = Inr rpmPkg \<longrightarrow> rpm_Package.Name rpmPkg \<noteq> []"
          by (rule spec)
        from this ok have "rpm_Package.Name rpmPkg \<noteq> []"
          by (rule mp)
        then show "k \<noteq> []"
          unfolding kn .
      next
        fix ps
        assume kn: "k = PackageName ps" and ne: "PackageName ps \<noteq> []"
        from ne show "k \<noteq> []"
          unfolding kn .
      qed
    qed
    show ?thesis
    proof (cases "candidates parse (h cve)")
      case Nil
      then show ?thesis .
    next
      case (Cons x xs)
      then have x: "x \<in> set (candidates parse (h cve))" by simp
      from e x have "x = []" by (rule bspec)
      moreover from x have "x \<noteq> []" by (rule ne)
      ultimately show ?thesis by contradiction
    qed
  qed
  have none: "cve \<notin> set (bucket (fst (PackageFeed parse h feed tr)) k)"
    if "candidates parse (h cve) = []" for k
    using that by (simp add: bucket_PackageFeed)
  have c1: "(\<forall>k \<in> set (candidates parse (h cve)). k = []) \<longrightarrow>
      (\<forall>k. k \<noteq> [] \<longrightarrow> cve \<notin> set (bucket (fst (PackageFeed parse h feed tr)) k))"
    using nonempty_key by (intro impI allI)
  have c2: "(\<forall>ar \<in> set (AffectedRelease (h cve)). \<forall>rpmPkg.
          parse (Package ar) = Inr rpmPkg \<longrightarrow> rpm_Package.Name rpmPkg \<noteq> []) \<longrightarrow>
        (\<forall>k \<in> set (candidates parse (h cve)). k = []) \<longrightarrow>
        (\<forall>k. cve \<notin> set (bucket (fst (PackageFeed parse h feed tr)) k))"
  proof (intro impI allI)
    fix k
    assume "\<forall>ar \<in> set (AffectedRelease (h cve)). \<forall>rpmPkg.
          parse (Package ar) = Inr rpmPkg \<longrightarrow> rpm_Package.Name rpmPkg \<noteq> []"
      and "\<forall>k \<in> set (candidates parse (h cve)). k = []"
    then have "candidates parse (h cve) = []" by (rule proviso)
    then show "cve \<notin> set (bucket (fst (PackageFeed parse h feed tr)) k)" by (rule none)
  qed
  have c3: "candidates parse (h cve) = [] \<longrightarrow>
        (\<forall>k. cve \<notin> set (bucket (fst (PackageFeed parse h feed tr)) k))"
    using none by (intro impI allI)
  have c5: "Package ar = [] \<longrightarrow>
        range_AffectedRelease parse (ar # ars) (pkgs, tr)
        = range_AffectedRelease parse ars (pkgs, tr)"
    by simp
  have c6: "PackageName ps = [] \<longrightarrow>
        range_PackageState (ps # pss) pkgs = range_PackageState pss pkgs"
    by simp
  from c1 c2 c3 iff c5 c6 show ?thesis by (intro conjI)
qed

text \<open>Advisory 3 has an empty specifier, a specifier that \<open>scenario_parse\<close> rejects and
  an empty base name. Advisory 1 is the last scenario of the spec: its bucket is bash
  only.\<close>

theorem PackageFeed_no_candidates_witness:
  "candidates scenario_parse (scenario_store 3) = []
   \<and> 3 \<notin> set (bucket (fst (PackageFeed scenario_parse scenario_store [0, 1, 2, 3]
                            ([] :: string event list))) ''bash'')
   \<and> 3 \<notin> set (bucket (fst (PackageFeed scenario_parse scenario_store [0, 1, 2, 3]
                            ([] :: string event list))) [])
   \<and> Package \<lparr>Package = []\<rparr> = []
   \<and> range_AffectedRelease scenario_parse (AffectedRelease (scenario_store 1))
         ([], [] :: string event list) = ([], [])
   \<and> PackageName \<lparr>PackageName = []\<rparr> = []
   \<and> range_PackageState (PackageState (scenario_store 3)) [] = []
   \<and> candidates scenario_parse (scenario_store 1) = [''bash'']"
proof -
  note t = PackageFeed_no_candidates
             [where parse = scenario_parse and h = scenario_store and cve = 3
                and feed = "[0, 1, 2, 3]" and tr = "[] :: string event list"
                and ar = "\<lparr>Package = []\<rparr>" and ars = "[]" and pkgs = "[]"
                and ps = "\<lparr>PackageName = []\<rparr>" and pss = "[]"]
  have c: "candidates scenario_parse (scenario_store 3) = []"
    by (simp add: scenario_defs)
  have e: "\<forall>k \<in> set (candidates scenario_parse (scenario_store 3)). k = []"
    using c by simp
  have p: "\<forall>ar \<in> set (AffectedRelease (scenario_store 3)). \<forall>rpmPkg.
             scenario_parse (Package ar) = Inr rpmPkg \<longrightarrow> rpm_Package.Name rpmPkg \<noteq> []"
    by (auto simp: scenario_store_def scenario_parse_def)
  have b: "3 \<notin> set (bucket (fst (PackageFeed scenario_parse scenario_store [0, 1, 2, 3]
                                  ([] :: string event list))) ''bash'')"
    using t e by blast
  have b': "3 \<notin> set (bucket (fst (PackageFeed scenario_parse scenario_store [0, 1, 2, 3]
                                   ([] :: string event list))) [])"
    using t p e by blast
  note skip_ar = t [THEN conjunct2, THEN conjunct2, THEN conjunct2, THEN conjunct2,
                    THEN conjunct1]
  note skip_ps = t [THEN conjunct2, THEN conjunct2, THEN conjunct2, THEN conjunct2,
                    THEN conjunct2]
  have a: "range_AffectedRelease scenario_parse (AffectedRelease (scenario_store 1))
             ([], [] :: string event list) = ([], [])"
    using skip_ar by (simp add: scenario_store_def)
  have s: "range_PackageState (PackageState (scenario_store 3)) [] = []"
    using skip_ps by (simp add: scenario_store_def)
  have c1: "candidates scenario_parse (scenario_store 1) = [''bash'']"
    by (simp add: scenario_defs)
  from c b b' a s c1 show ?thesis by simp
qed

text \<open>
  C6, as stated, fails: with a parser that returns the empty base name for the
  non-empty specifier \<^verbatim>\<open>-1-1.noarch\<close>, the only candidate name of advisory 3 is the empty
  string, so it yields no non-empty candidate name, and yet it stands in the bucket of
  the empty name.
\<close>

theorem PackageFeed_no_candidates_counterexample:
  "candidates nameless_parse (scenario_store 3) = [[]]
   \<and> bucket (fst (PackageFeed nameless_parse scenario_store [3] ([] :: string event list))) []
       = [3]"
  by (simp add: scenario_defs nameless_parse_def)

text \<open>
  C7. In every bucket the advisories stand in the order of the collection: the bucket of
  a name is the collection with the advisories removed whose candidate list does not
  hold the name, hence a subsequence of the collection. The index is built by going
  through the collection in order: the index of a collection extended by one advisory
  at its end is the index of the collection with that advisory appended to the buckets
  of its candidate names.
\<close>

theorem PackageFeed_bucket_order:
  "bucket (fst (PackageFeed parse h feed tr)) k
     = filter (\<lambda>cve. k \<in> set (candidates parse (h cve))) feed
   \<and> subseq (bucket (fst (PackageFeed parse h feed tr)) k) feed
   \<and> fst (PackageFeed parse h (feed @ [cve]) tr)
     = range_pkgs cve (candidates parse (h cve)) (fst (PackageFeed parse h feed tr))"
proof -
  have "fst (PackageFeed parse h (feed @ [cve]) tr)
     = range_pkgs cve (candidates parse (h cve)) (fst (PackageFeed parse h feed tr))"
    by (simp add: fst_PackageFeed build_from_append build_from_Cons build_from_Nil)
  then show ?thesis
    by (simp add: bucket_PackageFeed)
qed

text \<open>The collection 3, 2, 1, 0 gives the bucket 2, 1, 0 for bash.\<close>

theorem PackageFeed_bucket_order_witness:
  "bucket (fst (PackageFeed scenario_parse scenario_store [3, 2, 1, 0]
                  ([] :: string event list))) ''bash'' = [2, 1, 0]"
proof -
  have "bucket (fst (PackageFeed scenario_parse scenario_store [3, 2, 1, 0]
                       ([] :: string event list))) ''bash''
        = filter (\<lambda>cve. ''bash'' \<in> set (candidates scenario_parse (scenario_store cve)))
            [3, 2, 1, 0]"
    using PackageFeed_bucket_order
            [where parse = scenario_parse and h = scenario_store and feed = "[3, 2, 1, 0]"
               and tr = "[] :: string event list" and k = "''bash''"]
    by blast
  then show ?thesis
    by (simp add: scenario_defs)
qed




text \<open>
  C10. The candidate list is set to empty for every element of the collection, so names
  are only deduplicated within one element: when an advisory stands at two positions of
  the collection and its candidate list holds a name, the bucket of that name holds the
  advisory twice, one entry for each of the two positions, between the entries that the
  other parts of the collection contribute.
\<close>

theorem PackageFeed_repeated_advisory:
  assumes "k \<in> set (candidates parse (h cve))"
  shows "bucket (fst (PackageFeed parse h (xs @ cve # ys @ cve # zs) tr)) k
         = bucket (fst (PackageFeed parse h xs tr)) k
           @ cve # bucket (fst (PackageFeed parse h ys tr)) k
           @ cve # bucket (fst (PackageFeed parse h zs tr)) k"
  using assms by (simp add: bucket_PackageFeed)

text \<open>Advisory 0 listed twice stands twice in the bucket of bash.\<close>

theorem PackageFeed_repeated_advisory_witness:
  "''bash'' \<in> set (candidates scenario_parse (scenario_store 0))
   \<and> bucket (fst (PackageFeed scenario_parse scenario_store [0, 0]
                    ([] :: string event list))) ''bash'' = [0, 0]"
proof -
  have c: "''bash'' \<in> set (candidates scenario_parse (scenario_store 0))"
    by (simp add: scenario_defs)
  have e: "bucket (fst (PackageFeed scenario_parse scenario_store []
                          ([] :: string event list))) ''bash'' = []"
    by (simp add: scenario_defs)
  note t = PackageFeed_repeated_advisory
             [where parse = scenario_parse and h = scenario_store and cve = 0
                and k = "''bash''" and xs = "[]" and ys = "[]" and zs = "[]"
                and tr = "[] :: string event list", OF c]
  from t
  have "bucket (fst (PackageFeed scenario_parse scenario_store [0, 0]
                            ([] :: string event list))) ''bash'' = [0, 0]"
    unfolding e by simp
  with c show ?thesis by (intro conjI)
qed

end
